theory Spec2Isabelle
  imports Main "HOL-Library.Word" "HOL-Library.Multiset" "HOL-Library.Sublist"
begin

section \<open>JavaScript strings and values\<close>

text \<open>
  A JavaScript string is a sequence of UTF-16 code units, and \<open>length\<close> counts code
  units. String literals of the source are ASCII and are written with \<open>js\<close>.
\<close>

type_synonym jschar = "16 word"
type_synonym jsstring = "jschar list"

definition js :: "string \<Rightarrow> jsstring" where
  "js s = map of_char s"

text \<open>
  The values a caller can hand to the services: whatever a JSON request body or a URL
  parameter holds. Numbers are left out (their \<open>String\<close> is the double-to-string
  algorithm, which no claim depends on).
\<close>

datatype jsval =
    JUndefined
  | JNull
  | JBool bool
  | JStr jsstring
  | JArr "jsval list"
  | JObj "(jsstring \<times> jsval) list"

text \<open>\<open>!x\<close> is \<open>\<not> truthy x\<close>.\<close>

fun truthy :: "jsval \<Rightarrow> bool" where
  "truthy JUndefined = False"
| "truthy JNull = False"
| "truthy (JBool b) = b"
| "truthy (JStr s) = (s \<noteq> [])"
| "truthy (JArr xs) = True"
| "truthy (JObj kvs) = True"

text \<open>\<open>Array.prototype.join(',')\<close> on the elements' strings.\<close>

fun join_comma :: "jsstring list \<Rightarrow> jsstring" where
  "join_comma [] = []"
| "join_comma [x] = x"
| "join_comma (x # y # ys) = x @ 0x2C # join_comma (y # ys)"

text \<open>An exception: \<open>new Error(message)\<close>, or a \<open>TypeError\<close> of the runtime.\<close>

datatype error = Error string | TypeError string

text \<open>
  \<open>String(x)\<close>, which is also the conversion of a template literal. An object of a
  request body holds no function; when it has an own entry \<open>toString\<close>, that entry
  hides \<open>Object.prototype.toString\<close>, and the conversion throws a \<open>TypeError\<close>. An
  array converts its elements in turn, so it throws when one of them does.
\<close>

fun String_throws :: "jsval \<Rightarrow> bool" where
  "String_throws JUndefined = False"
| "String_throws JNull = False"
| "String_throws (JBool b) = False"
| "String_throws (JStr s) = False"
| "String_throws (JArr xs) = list_ex String_throws xs"
| "String_throws (JObj kvs) = (js ''toString'' \<in> set (map fst kvs))"

text \<open>
  The string \<open>String(x)\<close> returns when it returns: an array joins its elements with
  commas, \<open>null\<close> and \<open>undefined\<close> elements giving the empty string; an object gives
  \<open>[object Object]\<close>.
\<close>

fun String_text :: "jsval \<Rightarrow> jsstring" where
  "String_text JUndefined = js ''undefined''"
| "String_text JNull = js ''null''"
| "String_text (JBool b) = (if b then js ''true'' else js ''false'')"
| "String_text (JStr s) = s"
| "String_text (JArr xs) =
     join_comma (map (\<lambda>x. if x = JUndefined \<or> x = JNull then [] else String_text x) xs)"
| "String_text (JObj kvs) = js ''[object Object]''"

definition String_js :: "jsval \<Rightarrow> error + jsstring" where
  "String_js x =
     (if String_throws x then Inl (TypeError ''Cannot convert object to primitive value'')
      else Inr (String_text x))"

section \<open>The sanitizer (SecurityMiddleware.sanitizeInput)\<close>

text \<open>
  \<open>str.replace(/c/g, r)\<close> for a single character \<open>c\<close>, and \<open>validator.escape\<close> of the
  validator package, which is the chain of eight such replacements, ampersand first.
\<close>

definition replace_all :: "jschar \<Rightarrow> jsstring \<Rightarrow> jsstring \<Rightarrow> jsstring" where
  "replace_all c r s = concat (map (\<lambda>x. if x = c then r else [x]) s)"

definition validator_escape :: "jsstring \<Rightarrow> jsstring" where
  "validator_escape str =
     replace_all 0x60 (js ''&#96;'')
      (replace_all 0x5C (js ''&#x5C;'')
       (replace_all 0x2F (js ''&#x2F;'')
        (replace_all 0x3E (js ''&gt;'')
         (replace_all 0x3C (js ''&lt;'')
          (replace_all 0x27 (js ''&#x27;'')
           (replace_all 0x22 (js ''&quot;'')
            (replace_all 0x26 (js ''&amp;'') str)))))))"

text \<open>The character class \<open>['"`;]\<close>: the three quote characters and the semicolon.\<close>

definition is_quote :: "jschar \<Rightarrow> bool" where
  "is_quote c = (c = 0x27 \<or> c = 0x22 \<or> c = 0x60 \<or> c = 0x3B)"

text \<open>The character class \<open>[\x00-\x1F\x7F]\<close>.\<close>

definition is_control :: "jschar \<Rightarrow> bool" where
  "is_control c = (c \<le> 0x1F \<or> c = 0x7F)"

text \<open>
  White space and line terminators of ECMAScript: what \<open>trim\<close> strips and what the
  regular expression class \<open>\s\<close> matches.
\<close>

definition is_space :: "jschar \<Rightarrow> bool" where
  "is_space c =
     ((0x09 \<le> c \<and> c \<le> 0x0D) \<or> c = 0x20 \<or> c = 0xA0 \<or> c = 0x1680
      \<or> (0x2000 \<le> c \<and> c \<le> 0x200A) \<or> c = 0x2028 \<or> c = 0x2029 \<or> c = 0x202F
      \<or> c = 0x205F \<or> c = 0x3000 \<or> c = 0xFEFF)"

definition trim :: "jsstring \<Rightarrow> jsstring" where
  "trim s = rev (dropWhile is_space (rev (dropWhile is_space s)))"

text \<open>
  \<open>DOMPurify.sanitize(input, {ALLOWED_TAGS: [...], ALLOWED_ATTR: []})\<close> is a call into
  the DOMPurify package; it is the parameter \<open>purify\<close> of the model. On a string without
  the character \<open><\<close> DOMPurify returns its argument as it is.
\<close>

definition sanitizeInput :: "(jsstring \<Rightarrow> jsstring) \<Rightarrow> jsval \<Rightarrow> error + jsstring" where
  "sanitizeInput purify input =
     (case input of
        JStr s \<Rightarrow>
          Inr (trim (filter (\<lambda>c. \<not> is_control c) (filter (\<lambda>c. \<not> is_quote c) (purify s))))
      | _ \<Rightarrow>
          (case String_js input of
             Inl e \<Rightarrow> Inl e
           | Inr str \<Rightarrow> Inr (validator_escape str)))"

section \<open>The version store (VersionHistoryService)\<close>

text \<open>
  The metadata of a revision: the caller's entries (spread first, so that the three
  computed statistics win over entries of the same names) and the statistics.
\<close>

datatype metaval = MJson jsval | MDate nat

record version_metadata =
  extra :: "(jsstring \<times> metaval) list"
  wordCount :: nat
  characterCount :: nat
  lineCount :: nat

text \<open>
  A revision. \<open>timestamp\<close> is the \<open>Date\<close> as milliseconds since the epoch; \<open>id\<close> is
  \<open>Date.now().toString()\<close>.
\<close>

record revision =
  id_rev :: jsstring
  documentId :: jsstring
  content :: jsstring
  userId :: jsstring
  action :: jsstring
  timestamp :: nat
  metadata :: version_metadata

text \<open>\<open>this.versions\<close>: a \<open>Map\<close> from document identifiers to arrays of revisions.\<close>

type_synonym store = "jsstring \<rightharpoonup> revision list"

text \<open>\<open>n.toString()\<close> for a non-negative integer: its decimal digits.\<close>

fun decimal :: "nat \<Rightarrow> jsstring" where
  "decimal n = (if n < 10 then [of_nat (48 + n)] else decimal (n div 10) @ [of_nat (48 + n mod 10)])"

text \<open>
  \<open>s.split(/\s+/)\<close>: the pieces between the maximal runs of white space (a leading or
  trailing run gives an empty piece), and \<open>s.split('\n')\<close>.
\<close>

function split_ws :: "jsstring \<Rightarrow> jsstring list" where
  "split_ws s =
     (case dropWhile (\<lambda>c. \<not> is_space c) s of
        [] \<Rightarrow> [s]
      | _ # rest \<Rightarrow> takeWhile (\<lambda>c. \<not> is_space c) s # split_ws (dropWhile is_space rest))"
  by pat_completeness auto
termination
proof (relation "measure length", goal_cases)
  case 1
  show ?case by simp
next
  case (2 s x rest)
  have "length (dropWhile is_space rest) \<le> length rest"
    by (rule length_dropWhile_le)
  moreover have "length (dropWhile (\<lambda>c. \<not> is_space c) s) \<le> length s"
    by (rule length_dropWhile_le)
  ultimately show ?case using 2 by simp
qed

declare decimal.simps [simp del] split_ws.simps [simp del]

fun split_on :: "jschar \<Rightarrow> jsstring \<Rightarrow> jsstring list" where
  "split_on sep [] = [[]]"
| "split_on sep (c # cs) =
     (if c = sep then [] # split_on sep cs
      else (case split_on sep cs of [] \<Rightarrow> [[c]] | p # ps \<Rightarrow> (c # p) # ps))"

definition stat_keys :: "jsstring list" where
  "stat_keys = [js ''wordCount'', js ''characterCount'', js ''lineCount'']"

definition the_versions :: "store \<Rightarrow> jsstring \<Rightarrow> revision list" where
  "the_versions s d = (case s d of None \<Rightarrow> [] | Some vs \<Rightarrow> vs)"

text \<open>
  \<open>saveVersion(documentId, content, userId, action = 'edit', metadata = {})\<close>. The two
  readings of the clock, \<open>Date.now()\<close> for the id and \<open>new Date()\<close> for the timestamp,
  are the arguments \<open>now_id\<close> and \<open>now_ts\<close>. The result is the exception, or the new
  revision and the store after the call. The three calls of the sanitizer come before
  the store is touched, in the order content, user, action; an exception of any of them
  leaves the function.
\<close>

definition saveVersion ::
  "(jsstring \<Rightarrow> jsstring) \<Rightarrow> store \<Rightarrow> jsstring \<Rightarrow> jsval \<Rightarrow> jsval \<Rightarrow> jsval
    \<Rightarrow> (jsstring \<times> metaval) list \<Rightarrow> nat \<Rightarrow> nat \<Rightarrow> error + (revision \<times> store)" where
  "saveVersion purify s d c uid act md now_id now_ts =
     (if d = [] \<or> \<not> truthy c then Inl (Error ''Document ID and content are required'')
      else
        (case sanitizeInput purify c of
           Inl e \<Rightarrow> Inl e
         | Inr sanitizedContent \<Rightarrow>
        (case sanitizeInput purify (if truthy uid then uid else JStr (js ''anonymous'')) of
           Inl e \<Rightarrow> Inl e
         | Inr sanitizedUser \<Rightarrow>
        (case sanitizeInput purify (if act = JUndefined then JStr (js ''edit'') else act) of
           Inl e \<Rightarrow> Inl e
         | Inr sanitizedAction \<Rightarrow>
            let version = \<lparr>
                  id_rev = decimal now_id,
                  documentId = d,
                  content = sanitizedContent,
                  userId = sanitizedUser,
                  action = sanitizedAction,
                  timestamp = now_ts,
                  metadata = \<lparr>
                    extra = filter (\<lambda>(k, v). k \<notin> set stat_keys) md,
                    wordCount =
                      length (filter (\<lambda>word. length word > 0) (split_ws sanitizedContent)),
                    characterCount = length sanitizedContent,
                    lineCount = length (split_on 0x0A sanitizedContent) \<rparr> \<rparr>;
                documentVersions = the_versions s d @ [version];
                documentVersions' =
                  (if length documentVersions > 50 then tl documentVersions
                   else documentVersions)
            in Inr (version, s(d \<mapsto> documentVersions'))))))"

text \<open>
  \<open>getVersions\<close>: \<open>Array.prototype.sort\<close> is stable and sorts the array it is called on,
  which is the array the store holds; so the store after the call holds the sorted array.
  For an unknown document the array sorted is a fresh empty one.
\<close>

definition sort_newest_first :: "revision list \<Rightarrow> revision list" where
  "sort_newest_first vs = sort_key (\<lambda>v. - int (timestamp v)) vs"

definition getVersions :: "store \<Rightarrow> jsstring \<Rightarrow> error + (revision list \<times> store)" where
  "getVersions s d =
     (if d = [] then Inl (Error ''Document ID is required'')
      else (case s d of
              None \<Rightarrow> Inr ([], s)
            | Some vs \<Rightarrow> Inr (sort_newest_first vs, s(d \<mapsto> sort_newest_first vs))))"

definition getVersion :: "store \<Rightarrow> jsstring \<Rightarrow> jsstring \<Rightarrow> error + revision option" where
  "getVersion s d versionId =
     (if d = [] \<or> versionId = [] then Inl (Error ''Document ID and version ID are required'')
      else Inr (find (\<lambda>v. id_rev v = versionId) (the_versions s d)))"

definition getLatestVersion :: "store \<Rightarrow> jsstring \<Rightarrow> error + (revision option \<times> store)" where
  "getLatestVersion s d =
     (if d = [] then Inl (Error ''Document ID is required'')
      else (case getVersions s d of
              Inl e \<Rightarrow> Inl e
            | Inr (versions, s') \<Rightarrow>
                Inr ((case versions of [] \<Rightarrow> None | v # _ \<Rightarrow> Some v), s')))"

text \<open>
  The line diff inside \<open>compareVersions\<close>: \<open>Array.prototype.includes\<close>, and the two
  filters over the lines of either text.
\<close>

fun array_includes :: "'a list \<Rightarrow> 'a \<Rightarrow> bool" where
  "array_includes [] x = False"
| "array_includes (y # ys) x = (y = x \<or> array_includes ys x)"

record diff_result =
  added :: "jsstring list"
  removed :: "jsstring list"
  addedCount :: nat
  removedCount :: nat
  totalChanges :: nat

definition diffLines :: "jsstring \<Rightarrow> jsstring \<Rightarrow> diff_result" where
  "diffLines text1 text2 =
     (let lines1 = split_on 0x0A text1;
          lines2 = split_on 0x0A text2;
          added = filter (\<lambda>line. \<not> array_includes lines1 line) lines2;
          removed = filter (\<lambda>line. \<not> array_includes lines2 line) lines1
      in \<lparr> added = added, removed = removed,
           addedCount = length added, removedCount = length removed,
           totalChanges = length added + length removed \<rparr>)"

record comparison =
  version1 :: revision
  version2 :: revision
  differences :: diff_result

definition compareVersions ::
  "store \<Rightarrow> jsstring \<Rightarrow> jsstring \<Rightarrow> jsstring \<Rightarrow> error + comparison" where
  "compareVersions s d versionId1 versionId2 =
     (if d = [] \<or> versionId1 = [] \<or> versionId2 = []
      then Inl (Error ''Document ID and both version IDs are required'')
      else
        (case (find (\<lambda>v. id_rev v = versionId1) (the_versions s d),
               find (\<lambda>v. id_rev v = versionId2) (the_versions s d)) of
           (Some v1, Some v2) \<Rightarrow>
             Inr \<lparr> version1 = v1, version2 = v2,
                   differences = diffLines (content v1) (content v2) \<rparr>
         | _ \<Rightarrow> Inl (Error ''One or both versions not found'')))"


text \<open>
  \<open>xs.slice(start)\<close>: a negative start counts from the end, and \<open>-0\<close> is \<open>0\<close>.
\<close>

definition slice_from :: "int \<Rightarrow> 'a list \<Rightarrow> 'a list" where
  "slice_from start xs =
     (if start < 0 then drop (nat (int (length xs) + start)) xs else drop (nat start) xs)"

definition cleanupOldVersions :: "store \<Rightarrow> jsstring \<Rightarrow> int \<Rightarrow> error + store" where
  "cleanupOldVersions s d keepCount =
     (if d = [] then Inl (Error ''Document ID is required'')
      else (case s d of
              None \<Rightarrow> Inr s
            | Some versions \<Rightarrow>
                if int (length versions) \<le> keepCount then Inr s
                else Inr (s(d \<mapsto> slice_from (- keepCount) versions))))"

section \<open>The export service (ExportService)\<close>

text \<open>
  What the exporters read from outside: the renderings of the clock (one field for
  each \<open>new Date()\<close> the code formats), \<open>JSON.stringify\<close>, \<open>path.join\<close>,
  \<open>Buffer.byteLength\<close>, the temporary directory, and whether \<open>fs.writeFile\<close> succeeds.
\<close>

record export_env =
  filename_iso :: jsstring
  frontmatter_iso :: jsstring
  locale_date :: jsstring
  locale_time :: jsstring
  json_stringify :: "jsval \<Rightarrow> jsstring"
  path_join :: "jsstring \<Rightarrow> jsstring \<Rightarrow> jsstring"
  byte_length :: "jsstring \<Rightarrow> nat"
  tempDir :: jsstring
  write_file :: "jsstring \<Rightarrow> jsstring \<Rightarrow> bool"

record export_options =
  includeMetadata :: jsval
  includeFrontmatter :: jsval
  title :: jsval
  author :: jsval
  tags :: jsval
  category :: jsval

record export_result =
  x_filename :: jsstring
  x_filePath :: jsstring
  x_contentType :: jsstring
  x_content :: jsstring
  x_size :: nat

text \<open>\<open>a || b\<close>.\<close>

definition or_default :: "jsval \<Rightarrow> jsval \<Rightarrow> jsval" where
  "or_default a b = (if truthy a then a else b)"

definition generateFilename :: "export_env \<Rightarrow> jsstring \<Rightarrow> jsstring" where
  "generateFilename env extension =
     js ''export-'' @ map (\<lambda>c. if c = 0x3A \<or> c = 0x2E then 0x2D else c) (filename_iso env)
       @ js ''.'' @ extension"

fun join_lines :: "jsstring list \<Rightarrow> jsstring" where
  "join_lines [] = []"
| "join_lines [x] = x"
| "join_lines (x # y # ys) = x @ 0x0A # join_lines (y # ys)"

text \<open>The results of a list of computations, or the first exception among them.\<close>

fun collect :: "(error + 'a) list \<Rightarrow> error + 'a list" where
  "collect [] = Inr []"
| "collect (x # xs) =
     (case x of
        Inl e \<Rightarrow> Inl e
      | Inr a \<Rightarrow> (case collect xs of Inl e \<Rightarrow> Inl e | Inr as \<Rightarrow> Inr (a # as)))"

definition createFrontmatter :: "export_env \<Rightarrow> export_options \<Rightarrow> error + jsstring" where
  "createFrontmatter env options =
     (let frontmatter =
            [(js ''title'', or_default (title options) (JStr (js ''Exported Document''))),
             (js ''date'', JStr (frontmatter_iso env)),
             (js ''author'', or_default (author options) (JStr (js ''Meet with AI''))),
             (js ''tags'', or_default (tags options) (JArr [])),
             (js ''category'', or_default (category options) (JStr (js ''export'')))]
      in (case collect (map (\<lambda>(key, v).
                 (case (case v of JArr xs \<Rightarrow> Inr (json_stringify env v) | _ \<Rightarrow> String_js v) of
                    Inl e \<Rightarrow> Inl e
                  | Inr str \<Rightarrow> Inr (key @ js '': '' @ str))) frontmatter) of
            Inl e \<Rightarrow> Inl e
          | Inr entries \<Rightarrow> Inr (js ''---'' @ [0x0A] @ join_lines entries @ [0x0A] @ js ''---'')))"

definition createMetadataFooter :: "export_env \<Rightarrow> export_options \<Rightarrow> jsstring" where
  "createMetadataFooter env options =
     js ''---'' @ [0x0A] @ js ''*Exported from Meet with AI*'' @ [0x0A]
       @ js ''*Date: '' @ locale_date env @ js ''*'' @ [0x0A]
       @ js ''*Time: '' @ locale_time env @ js ''*''"

definition createTextHeader :: "export_env \<Rightarrow> export_options \<Rightarrow> error + jsstring" where
  "createTextHeader env options =
     (case String_js (or_default (title options) (JStr (js ''Exported Document''))) of
        Inl e \<Rightarrow> Inl e
      | Inr titleStr \<Rightarrow>
     (case String_js (or_default (author options) (JStr (js ''Meet with AI''))) of
        Inl e \<Rightarrow> Inl e
      | Inr authorStr \<Rightarrow>
          Inr (js ''Title: '' @ titleStr
            @ [0x0A] @ js ''Date: '' @ locale_date env
            @ [0x0A] @ js ''Time: '' @ locale_time env
            @ [0x0A] @ js ''Author: '' @ authorStr
            @ [0x0A, 0x0A] @ js ''---'')))"

text \<open>
  The two exporters. Any exception inside the \<open>try\<close> block (of the sanitizer, of a
  conversion to a string in the header or the frontmatter, of the write) is replaced by
  the exporter's own. A part that is not asked for is not computed.
\<close>

definition exportToMarkdown ::
  "(jsstring \<Rightarrow> jsstring) \<Rightarrow> export_env \<Rightarrow> jsval \<Rightarrow> export_options \<Rightarrow> error + export_result" where
  "exportToMarkdown purify env c options =
     (case sanitizeInput purify c of
        Inl e \<Rightarrow> Inl (Error ''Failed to export to Markdown'')
      | Inr sanitizedContent \<Rightarrow>
     (case (if truthy (includeFrontmatter options)
            then (case createFrontmatter env options of
                    Inl e \<Rightarrow> Inl e
                  | Inr frontmatter \<Rightarrow> Inr (frontmatter @ [0x0A, 0x0A] @ sanitizedContent))
            else Inr sanitizedContent) of
        Inl e \<Rightarrow> Inl (Error ''Failed to export to Markdown'')
      | Inr markdownContent \<Rightarrow>
          let filename = generateFilename env (js ''md'');
              filePath = path_join env (tempDir env) filename;
              markdownContent' =
                (if truthy (includeMetadata options)
                 then markdownContent @ [0x0A, 0x0A] @ createMetadataFooter env options
                 else markdownContent)
          in if write_file env filePath markdownContent'
             then Inr \<lparr> x_filename = filename, x_filePath = filePath,
                        x_contentType = js ''text/markdown'', x_content = markdownContent',
                        x_size = byte_length env markdownContent' \<rparr>
             else Inl (Error ''Failed to export to Markdown'')))"

definition exportToText ::
  "(jsstring \<Rightarrow> jsstring) \<Rightarrow> export_env \<Rightarrow> jsval \<Rightarrow> export_options \<Rightarrow> error + export_result" where
  "exportToText purify env c options =
     (case sanitizeInput purify c of
        Inl e \<Rightarrow> Inl (Error ''Failed to export to text'')
      | Inr sanitizedContent \<Rightarrow>
     (case (if truthy (includeMetadata options)
            then (case createTextHeader env options of
                    Inl e \<Rightarrow> Inl e
                  | Inr header \<Rightarrow> Inr (header @ [0x0A, 0x0A] @ sanitizedContent))
            else Inr sanitizedContent) of
        Inl e \<Rightarrow> Inl (Error ''Failed to export to text'')
      | Inr textContent \<Rightarrow>
          let filename = generateFilename env (js ''txt'');
              filePath = path_join env (tempDir env) filename
          in if write_file env filePath textContent
             then Inr \<lparr> x_filename = filename, x_filePath = filePath,
                        x_contentType = js ''text/plain'', x_content = textContent,
                        x_size = byte_length env textContent \<rparr>
             else Inl (Error ''Failed to export to text'')))"

section \<open>Example runs\<close>

text \<open>
  The examples call the services with strings that hold no markup; on those DOMPurify
  returns its argument, so the purifier of the examples is the identity. \<open>save_ok\<close> is
  the store after \<open>saveVersion(d, c)\<close> with both clock readings \<open>t\<close> (an exception is
  thrown before the store is touched), and \<open>mk_rev\<close> is the revision such a call
  builds when the sanitizer leaves \<open>c\<close> as it is.
\<close>

definition save_ok :: "store \<Rightarrow> jsstring \<Rightarrow> jsstring \<Rightarrow> nat \<Rightarrow> store" where
  "save_ok s d c t =
     (case saveVersion (\<lambda>x. x) s d (JStr c) JUndefined JUndefined [] t t of
        Inr (v, s') \<Rightarrow> s'
      | Inl e \<Rightarrow> s)"

definition mk_rev :: "jsstring \<Rightarrow> jsstring \<Rightarrow> nat \<Rightarrow> revision" where
  "mk_rev d c t =
     \<lparr> id_rev = decimal t, documentId = d, content = c, userId = js ''anonymous'',
       action = js ''edit'', timestamp = t,
       metadata = \<lparr> extra = [],
         wordCount = length (filter (\<lambda>word. length word > 0) (split_ws c)),
         characterCount = length c,
         lineCount = length (split_on 0x0A c) \<rparr> \<rparr>"

text \<open>
  An environment in which every write succeeds, and options asking for the metadata and
  the frontmatter, with no title, author, tags or category.
\<close>

definition example_env :: export_env where
  "example_env =
     \<lparr> filename_iso = js ''2024-01-02T03:04:05.678Z'',
       frontmatter_iso = js ''2024-01-02T03:04:05.679Z'',
       locale_date = js ''1/2/2024'',
       locale_time = js ''3:04:05 AM'',
       json_stringify = (\<lambda>v. js ''[]''),
       path_join = (\<lambda>a b. a @ js ''/'' @ b),
       byte_length = length,
       tempDir = js ''/srv/temp'',
       write_file = (\<lambda>p x. True) \<rparr>"

definition example_options :: export_options where
  "example_options =
     \<lparr> includeMetadata = JBool True, includeFrontmatter = JBool True, title = JUndefined,
       author = JUndefined, tags = JUndefined, category = JUndefined \<rparr>"

section \<open>Shared facts\<close>

lemma array_includes_set: "array_includes xs x \<longleftrightarrow> x \<in> set xs"
  by (induction xs) auto

lemma split_ws_Nil: "split_ws [] = [[]]"
  by (simp add: split_ws.simps)

text \<open>What a successful save leaves in the document's array: push, then one shift above 50.\<close>

lemma saveVersion_log:
  assumes "saveVersion purify s d c uid act md now_id now_ts = Inr (v, s')"
  shows "the_versions s' d =
           (if length (the_versions s d) \<ge> 50 then tl (the_versions s d) @ [v]
            else the_versions s d @ [v])"
  using assms
  by (cases "the_versions s d")
     (auto simp: saveVersion_def Let_def the_versions_def split: if_splits sum.splits)

text \<open>The sanitizer returns on every value that converts to a string.\<close>

lemma sanitizeInput_returns:
  "\<not> String_throws x \<Longrightarrow> \<exists>r. sanitizeInput purify x = Inr r"
  by (cases x) (simp_all add: sanitizeInput_def String_js_def)

lemma sanitizeInput_throws:
  "String_throws x \<Longrightarrow>
     sanitizeInput purify x = Inl (TypeError ''Cannot convert object to primitive value'')"
  by (cases x) (simp_all add: sanitizeInput_def String_js_def)

lemma sanitizeInput_user_returns:
  "\<not> String_throws uid \<Longrightarrow>
     \<exists>r. sanitizeInput purify (if truthy uid then uid else JStr (js ''anonymous'')) = Inr r"
  by (rule sanitizeInput_returns) simp

lemma sanitizeInput_action_returns:
  "\<not> String_throws act \<Longrightarrow>
     \<exists>r. sanitizeInput purify (if act = JUndefined then JStr (js ''edit'') else act) = Inr r"
  by (rule sanitizeInput_returns) simp

text \<open>A save returns when its arguments pass the guard and convert to strings.\<close>

lemma saveVersion_returns:
  assumes "d \<noteq> []" and "truthy c"
    and "\<not> String_throws c" and "\<not> String_throws uid" and "\<not> String_throws act"
  shows "\<exists>v s'. saveVersion purify s d c uid act md now_id now_ts = Inr (v, s')"
proof -
  obtain r1 where 1: "sanitizeInput purify c = Inr r1"
    using sanitizeInput_returns[OF assms(3)] by blast
  obtain r2 where
    2: "sanitizeInput purify (if truthy uid then uid else JStr (js ''anonymous'')) = Inr r2"
    using sanitizeInput_user_returns[OF assms(4)] by blast
  obtain r3 where
    3: "sanitizeInput purify (if act = JUndefined then JStr (js ''edit'') else act) = Inr r3"
    using sanitizeInput_action_returns[OF assms(5)] by blast
  show ?thesis
    using assms(1,2) by (simp add: saveVersion_def Let_def 1 2 3)
qed

text \<open>What a returned revision holds.\<close>

lemma saveVersion_fields:
  assumes "saveVersion purify s d c uid act md now_id now_ts = Inr (v, s')"
  shows "id_rev v = decimal now_id"
    and "timestamp v = now_ts"
    and "sanitizeInput purify c = Inr (content v)"
    and "sanitizeInput purify (if act = JUndefined then JStr (js ''edit'') else act)
           = Inr (action v)"
    and "extra (metadata v) = filter (\<lambda>(k, v). k \<notin> set stat_keys) md"
    and "wordCount (metadata v)
           = length (filter (\<lambda>word. length word > 0) (split_ws (content v)))"
    and "characterCount (metadata v) = length (content v)"
    and "lineCount (metadata v) = length (split_on 0x0A (content v))"
    and "s' d = Some (the_versions s' d)"
  using assms
  by (auto simp: saveVersion_def Let_def the_versions_def split: if_splits sum.splits)

lemma js_eq_Nil [simp]: "js s = [] \<longleftrightarrow> s = []"
  by (simp add: js_def)

lemma find_append_js:
  "find P (xs @ ys) = (case find P xs of None \<Rightarrow> find P ys | Some x \<Rightarrow> Some x)"
  by (induction xs) auto

lemma decimal_nonempty: "decimal n \<noteq> []"
  by (subst decimal.simps) simp

lemma the_versions_empty: "the_versions Map.empty d = []"
  by (simp add: the_versions_def)

section \<open>Facts about the example runs\<close>

lemma sanitize_anonymous: "sanitizeInput (\<lambda>x. x) (JStr (js ''anonymous'')) = Inr (js ''anonymous'')"
  by (simp add: sanitizeInput_def js_def is_quote_def is_control_def is_space_def trim_def)

lemma sanitize_edit: "sanitizeInput (\<lambda>x. x) (JStr (js ''edit'')) = Inr (js ''edit'')"
  by (simp add: sanitizeInput_def js_def is_quote_def is_control_def is_space_def trim_def)

lemma sanitize_hello: "sanitizeInput (\<lambda>x. x) (JStr (js ''Hello world'')) = Inr (js ''Hello world'')"
  by (simp add: sanitizeInput_def js_def is_quote_def is_control_def is_space_def trim_def)

lemma sanitize_hello_brave:
  "sanitizeInput (\<lambda>x. x) (JStr (js ''Hello brave world'')) = Inr (js ''Hello brave world'')"
  by (simp add: sanitizeInput_def js_def is_quote_def is_control_def is_space_def trim_def)

lemma mk_rev_sel:
  "id_rev (mk_rev d c t) = decimal t"
  "content (mk_rev d c t) = c"
  "timestamp (mk_rev d c t) = t"
  by (simp_all add: mk_rev_def)

lemma save_ok_log:
  assumes "d \<noteq> []" and "c \<noteq> []" and "sanitizeInput (\<lambda>x. x) (JStr c) = Inr c"
  shows "the_versions (save_ok s d c t) d =
           (if length (the_versions s d) \<ge> 50 then tl (the_versions s d) else the_versions s d)
             @ [mk_rev d c t]"
proof -
  obtain v s' where
    r: "saveVersion (\<lambda>x. x) s d (JStr c) JUndefined JUndefined [] t t = Inr (v, s')"
    using saveVersion_returns[OF assms(1), of "JStr c" JUndefined JUndefined "\<lambda>x. x" s "[]" t t]
      assms(2)
    by auto
  have v: "v = mk_rev d c t"
    using r assms
    by (auto simp: saveVersion_def Let_def mk_rev_def sanitize_anonymous sanitize_edit)
  show ?thesis
    using saveVersion_log[OF r] by (simp add: save_ok_def r v)
qed

lemma doc_ne: "js ''doc'' \<noteq> []"
  by simp

lemma decimal_1000: "decimal 1000 = js ''1000''"
  by (simp add: decimal.simps js_def)

lemma decimal_2000: "decimal 2000 = js ''2000''"
  by (simp add: decimal.simps js_def)

lemma decimal_2000_ne_1000: "decimal 2000 \<noteq> decimal 1000"
  by (simp add: decimal_1000 decimal_2000 js_def)

text \<open>The store after saving \<open>Hello world\<close> at 1000 and \<open>Hello brave world\<close> at 2000.\<close>

lemma example_log:
  "the_versions
     (save_ok (save_ok Map.empty (js ''doc'') (js ''Hello world'') 1000)
        (js ''doc'') (js ''Hello brave world'') 2000) (js ''doc'')
   = [mk_rev (js ''doc'') (js ''Hello world'') 1000,
      mk_rev (js ''doc'') (js ''Hello brave world'') 2000]"
proof -
  have a: "js ''Hello world'' \<noteq> []" and b: "js ''Hello brave world'' \<noteq> []"
    by simp_all
  show ?thesis
    by (simp add: save_ok_log[OF doc_ne a sanitize_hello]
          save_ok_log[OF doc_ne b sanitize_hello_brave] the_versions_empty)
qed

lemma sanitize_x: "sanitizeInput (\<lambda>x. x) (JStr (js ''x'')) = Inr (js ''x'')"
  by (simp add: sanitizeInput_def js_def is_quote_def is_control_def is_space_def trim_def)

lemma fold_saves_log:
  assumes "d \<noteq> []" and "c \<noteq> []" and "sanitizeInput (\<lambda>x. x) (JStr c) = Inr c"
  shows "length ts \<le> 50 \<Longrightarrow>
     the_versions (fold (\<lambda>t s. save_ok s d c t) ts Map.empty) d = map (mk_rev d c) ts"
proof (induction ts rule: rev_induct)
  case Nil
  then show ?case by (simp add: the_versions_empty)
next
  case (snoc t ts)
  then have ih: "the_versions (fold (\<lambda>t s. save_ok s d c t) ts Map.empty) d = map (mk_rev d c) ts"
    and len: "length ts < 50"
    by simp_all
  show ?case
    using len by (simp add: save_ok_log[OF assms] ih)
qed

lemma sorted_mk: "sorted_wrt (\<lambda>a b. timestamp a < timestamp b) (map (mk_rev d c) [i..<j])"
  by (simp add: sorted_wrt_map mk_rev_sel sorted_wrt_upt)

lemma example_sorted: "sort_newest_first [mk_rev (js ''doc'') (js ''Hello world'') 1000,
      mk_rev (js ''doc'') (js ''Hello brave world'') 2000]
   = [mk_rev (js ''doc'') (js ''Hello brave world'') 2000, mk_rev (js ''doc'') (js ''Hello world'') 1000]"
  by (simp add: sort_newest_first_def mk_rev_sel)










lemma sanitize_toString_object:
  "sanitizeInput (\<lambda>x. x) (JObj [(js ''toString'', JStr (js ''x''))])
     = Inl (TypeError ''Cannot convert object to primitive value'')"
  by (rule sanitizeInput_throws) simp

section \<open>Facts about sorting and restoring\<close>

lemma insort_key_last:
  "\<forall>y\<in>set ys. f y < f x \<Longrightarrow> insort_key f x ys = ys @ [x]"
proof (induction ys)
  case Nil
  then show ?case by simp
next
  case (Cons a ys)
  then have "\<not> f x \<le> f a"
    by (simp add: not_le)
  with Cons show ?case
    by simp
qed

lemma sort_newest_first_increasing:
  "sorted_wrt (\<lambda>a b. timestamp a < timestamp b) xs \<Longrightarrow> sort_newest_first xs = rev xs"
proof (induction xs)
  case Nil
  then show ?case by (simp add: sort_newest_first_def)
next
  case (Cons x xs)
  then have ih: "sort_key (\<lambda>v. - int (timestamp v)) xs = rev xs"
    by (simp add: sort_newest_first_def)
  have "insort_key (\<lambda>v. - int (timestamp v)) x (rev xs) = rev xs @ [x]"
    by (rule insort_key_last) (use Cons.prems in auto)
  then show ?case
    by (simp add: sort_newest_first_def ih)
qed




lemma saveVersion_cap:
  assumes "saveVersion purify s d c uid act md now_id now_ts = Inr (v, s')"
    and "length (the_versions s d) \<le> 50"
  shows "length (the_versions s' d) \<le> 50 \<and> last (the_versions s' d) = v"
  using saveVersion_log[OF assms(1)] assms(2) by auto

section \<open>The sanitizer on strings\<close>

lemma set_trim: "set (trim z) \<subseteq> set z"
proof -
  have "set (trim z) \<subseteq> set (rev (dropWhile is_space z))"
    unfolding trim_def by (metis set_dropWhileD set_rev subsetI)
  also have "\<dots> \<subseteq> set z"
    by (auto dest: set_dropWhileD)
  finally show ?thesis .
qed

lemma trim_last: "trim z \<noteq> [] \<Longrightarrow> \<not> is_space (last (trim z))"
proof -
  assume "trim z \<noteq> []"
  then have ne: "dropWhile is_space (rev (dropWhile is_space z)) \<noteq> []"
    by (simp add: trim_def)
  have "last (trim z) = hd (dropWhile is_space (rev (dropWhile is_space z)))"
    using ne by (simp add: trim_def last_rev)
  then show ?thesis
    using hd_dropWhile[OF ne] by simp
qed

lemma last_dropWhile: "dropWhile P xs \<noteq> [] \<Longrightarrow> last (dropWhile P xs) = last xs"
  by (induction xs) (auto split: if_splits)

lemma trim_hd: "trim z \<noteq> [] \<Longrightarrow> \<not> is_space (hd (trim z))"
proof -
  let ?w = "dropWhile is_space z"
  let ?u = "dropWhile is_space (rev ?w)"
  assume "trim z \<noteq> []"
  then have ne: "?u \<noteq> []"
    by (simp add: trim_def)
  then have wne: "?w \<noteq> []"
    by (metis dropWhile.simps(1) rev.simps(1))
  have "hd (trim z) = last ?u"
    using ne by (simp add: trim_def hd_rev)
  also have "\<dots> = last (rev ?w)"
    using ne by (rule last_dropWhile)
  also have "\<dots> = hd ?w"
    using wne by (simp add: last_rev)
  finally show ?thesis
    using hd_dropWhile[OF wne] by simp
qed

lemma trim_fixed:
  assumes "z = [] \<or> (\<not> is_space (hd z) \<and> \<not> is_space (last z))"
  shows "trim z = z"
proof (cases "z = []")
  case True
  then show ?thesis by (simp add: trim_def)
next
  case False
  with assms have h: "\<not> is_space (hd z)" and l: "\<not> is_space (last z)"
    by auto
  have 1: "dropWhile is_space z = z"
    using False h by (simp add: dropWhile_eq_self_iff)
  have 2: "dropWhile is_space (rev z) = rev z"
    using False l by (simp add: dropWhile_eq_self_iff hd_rev)
  show ?thesis by (simp add: trim_def 1 2)
qed

text \<open>On a string the sanitizer returns, and what it returns is this.\<close>

lemma sanitizeInput_JStr:
  "sanitizeInput purify (JStr x) =
     Inr (trim (filter (\<lambda>c. \<not> is_control c) (filter (\<lambda>c. \<not> is_quote c) (purify x))))"
  by (simp add: sanitizeInput_def)

lemma sanitizeInput_JStr_chars:
  assumes "sanitizeInput purify (JStr x) = Inr r" and "c \<in> set r"
  shows "\<not> is_quote c \<and> \<not> is_control c"
  using assms
    set_trim[of "filter (\<lambda>c. \<not> is_control c) (filter (\<lambda>c. \<not> is_quote c) (purify x))"]
  by (auto simp: sanitizeInput_JStr)

text \<open>
  The newline is a control character, so the sanitized form of a string is one line.
\<close>

lemma sanitizeInput_JStr_one_line:
  "sanitizeInput purify (JStr x) = Inr r \<Longrightarrow> 0x0A \<notin> set r"
  using sanitizeInput_JStr_chars[of purify x r "0x0A"] by (auto simp: is_control_def)

text \<open>
  A string the purifier returns as it is, free of the stripped characters and of outer
  white space, is a fixed point of the sanitizer.
\<close>

lemma sanitizeInput_fixed:
  assumes "purify r = r"
    and "\<And>c. c \<in> set r \<Longrightarrow> \<not> is_quote c \<and> \<not> is_control c"
    and "r = [] \<or> (\<not> is_space (hd r) \<and> \<not> is_space (last r))"
  shows "sanitizeInput purify (JStr r) = Inr r"
proof -
  have "filter (\<lambda>c. \<not> is_quote c) r = r"
    by (rule filter_True) (use assms(2) in blast)
  moreover have "filter (\<lambda>c. \<not> is_control c) r = r"
    by (rule filter_True) (use assms(2) in blast)
  moreover have "trim r = r"
    using assms(3) by (rule trim_fixed)
  ultimately show ?thesis
    by (simp add: sanitizeInput_def assms(1))
qed

text \<open>
  Claim C8, as the code has it. For a string argument the sanitizer returns a string,
  and whatever the purifier returns, the result holds no quote character (single,
  double, backtick), no semicolon and no ASCII control character, and it neither starts
  nor ends with white space. Sanitizing the result again changes nothing wherever the
  purifier returns the result as it is (as DOMPurify does for every string without
  \<open><\<close>).
\<close>

theorem sanitizeInput_string:
  "\<exists>r. sanitizeInput purify (JStr x) = Inr r
     \<and> 0x27 \<notin> set r
     \<and> 0x22 \<notin> set r
     \<and> 0x60 \<notin> set r
     \<and> 0x3B \<notin> set r
     \<and> (\<forall>c \<in> set r. 0x1F < c \<and> c \<noteq> 0x7F)
     \<and> (r \<noteq> [] \<longrightarrow> \<not> is_space (hd r) \<and> \<not> is_space (last r))
     \<and> (purify r = r \<longrightarrow> sanitizeInput purify (JStr r) = Inr r)"
proof -
  define r where
    "r = trim (filter (\<lambda>c. \<not> is_control c) (filter (\<lambda>c. \<not> is_quote c) (purify x)))"
  have e: "sanitizeInput purify (JStr x) = Inr r"
    by (simp add: sanitizeInput_JStr r_def)
  have chars: "\<And>c. c \<in> set r \<Longrightarrow> \<not> is_quote c \<and> \<not> is_control c"
    using e by (rule sanitizeInput_JStr_chars)
  have q: "0x27 \<notin> set r" "0x22 \<notin> set r" "0x60 \<notin> set r" "0x3B \<notin> set r"
    using chars by (auto simp: is_quote_def)
  have ctl: "\<forall>c \<in> set r. 0x1F < c \<and> c \<noteq> 0x7F"
    using chars by (auto simp: is_control_def not_le)
  have sp: "r = [] \<or> (\<not> is_space (hd r) \<and> \<not> is_space (last r))"
    unfolding r_def using trim_hd trim_last by auto
  have idem: "purify r = r \<longrightarrow> sanitizeInput purify (JStr r) = Inr r"
    using sanitizeInput_fixed[OF _ chars sp] by blast
  show ?thesis
    using e q ctl sp idem by blast
qed

theorem sanitizeInput_string_witness:
  "sanitizeInput (\<lambda>s. s) (JStr (js ''  say '' @ [0x22] @ js ''hi'' @ [0x22, 0x3B, 0x0A] @ js '' ok  ''))
     = Inr (js ''say hi ok'')
   \<and> 0x3B \<notin> set (js ''say hi ok'')
   \<and> 0x22 \<notin> set (js ''say hi ok'')
   \<and> \<not> is_space (hd (js ''say hi ok''))
   \<and> \<not> is_space (last (js ''say hi ok''))
   \<and> sanitizeInput (\<lambda>s. s) (JStr (js ''say hi ok'')) = Inr (js ''say hi ok'')"
proof -
  let ?x = "js ''  say '' @ [0x22] @ js ''hi'' @ [0x22, 0x3B, 0x0A] @ js '' ok  ''"
  have e: "sanitizeInput (\<lambda>s. s) (JStr ?x) = Inr (js ''say hi ok'')"
    by (simp add: sanitizeInput_def js_def is_quote_def is_control_def is_space_def trim_def)
  have ne: "js ''say hi ok'' \<noteq> []"
    by simp
  from sanitizeInput_string[of "\<lambda>s. s" ?x] obtain r where
    r: "sanitizeInput (\<lambda>s. s) (JStr ?x) = Inr r" "0x22 \<notin> set r" "0x3B \<notin> set r"
      "r \<noteq> [] \<longrightarrow> \<not> is_space (hd r) \<and> \<not> is_space (last r)"
      "(\<lambda>s. s) r = r \<longrightarrow> sanitizeInput (\<lambda>s. s) (JStr r) = Inr r"
    by blast
  have "r = js ''say hi ok''"
    using r(1) e by simp
  then show ?thesis
    using r e ne by simp
qed

text \<open>
  The claim as stated, for strings and other values alike, fails on an array: the
  one-element array holding the string \<open>;\<close> is escaped, not stripped, so the result is
  \<open>;\<close>, and sanitizing that result gives the empty string.
\<close>

theorem sanitizeInput_array_counterexample:
  "sanitizeInput (\<lambda>s. s) (JArr [JStr [0x3B]]) = Inr [0x3B]
   \<and> sanitizeInput (\<lambda>s. s) (JStr [0x3B]) = Inr []"
  by (simp add: sanitizeInput_def String_js_def validator_escape_def replace_all_def
        is_quote_def trim_def)

section \<open>The line diff\<close>

lemma diffLines_example:
  "diffLines (js ''a\<newline>b\<newline>c'') (js ''b\<newline>c\<newline>d'') =
     \<lparr> added = [js ''d''], removed = [js ''a''],
       addedCount = 1, removedCount = 1, totalChanges = 2 \<rparr>"
  by (simp add: diffLines_def js_def)

text \<open>
  Claim C7. The diff of two texts, each split at its newlines: \<open>added\<close> is the lines of
  the second text, in their order and with their repetitions, that equal no line of the
  first, and \<open>removed\<close> is the same with the texts exchanged. Membership is by value, not
  by position: as sets, \<open>added\<close> is the lines of the second text minus those of the first,
  so a line of both texts is in neither list, wherever and however often it stands.
  Diffing \<open>a\nb\nc\<close> against \<open>b\nc\nd\<close> gives \<open>added = [d]\<close> and \<open>removed = [a]\<close>.
\<close>

theorem diffLines_semantics:
  "added (diffLines a b) = filter (\<lambda>l. l \<notin> set (split_on 0x0A a)) (split_on 0x0A b)
   \<and> removed (diffLines a b) = filter (\<lambda>l. l \<notin> set (split_on 0x0A b)) (split_on 0x0A a)
   \<and> set (added (diffLines a b)) = set (split_on 0x0A b) - set (split_on 0x0A a)
   \<and> set (removed (diffLines a b)) = set (split_on 0x0A a) - set (split_on 0x0A b)
   \<and> added (diffLines (js ''a\<newline>b\<newline>c'') (js ''b\<newline>c\<newline>d'')) = [js ''d'']
   \<and> removed (diffLines (js ''a\<newline>b\<newline>c'') (js ''b\<newline>c\<newline>d'')) = [js ''a'']"
proof -
  have 1: "added (diffLines a b) = filter (\<lambda>l. l \<notin> set (split_on 0x0A a)) (split_on 0x0A b)"
    by (simp add: diffLines_def Let_def array_includes_set)
  have 2: "removed (diffLines a b) = filter (\<lambda>l. l \<notin> set (split_on 0x0A b)) (split_on 0x0A a)"
    by (simp add: diffLines_def Let_def array_includes_set)
  have 3: "set (added (diffLines a b)) = set (split_on 0x0A b) - set (split_on 0x0A a)"
    unfolding 1 by auto
  have 4: "set (removed (diffLines a b)) = set (split_on 0x0A a) - set (split_on 0x0A b)"
    unfolding 2 by auto
  show ?thesis using 1 2 3 4 by (simp add: diffLines_example)
qed

section \<open>Saving content that the sanitizer empties\<close>

text \<open>
  Claim C10. \<open>saveVersion\<close> tests the content it is given, not the sanitized content:
  for a non-empty string that the sanitizer turns into the empty string (and a user and
  an action that convert to strings, as absent ones and strings do), the save succeeds
  and the stored revision has empty content, with word count 0, character count 0 and
  line count 1. A lone double quote is such a string.
\<close>

theorem saveVersion_empty_after_sanitize:
  assumes "d \<noteq> []" and "c \<noteq> []" and "sanitizeInput purify (JStr c) = Inr []"
    and "\<not> String_throws uid" and "\<not> String_throws act"
  shows "\<exists>v s'. saveVersion purify s d (JStr c) uid act md now_id now_ts = Inr (v, s')
           \<and> content v = []
           \<and> wordCount (metadata v) = 0
           \<and> characterCount (metadata v) = 0
           \<and> lineCount (metadata v) = 1
           \<and> v \<in> set (the_versions s' d)"
proof -
  obtain v s' where r: "saveVersion purify s d (JStr c) uid act md now_id now_ts = Inr (v, s')"
    using saveVersion_returns[OF assms(1) _ _ assms(4,5), of "JStr c" purify s md now_id now_ts]
      assms(2)
    by auto
  have c: "content v = []"
    using saveVersion_fields(3)[OF r] assms(3) by simp
  have v: "wordCount (metadata v) = 0" "characterCount (metadata v) = 0"
    "lineCount (metadata v) = 1"
    using saveVersion_fields(6,7,8)[OF r] by (simp_all add: c split_ws_Nil)
  have "v \<in> set (the_versions s' d)"
    using saveVersion_log[OF r] by (cases "the_versions s d") auto
  with r c v show ?thesis
    by blast
qed

theorem saveVersion_empty_after_sanitize_witness:
  "js ''doc'' \<noteq> [] \<and> [0x22] \<noteq> ([]::jsstring)
   \<and> sanitizeInput (\<lambda>s. s) (JStr [0x22]) = Inr []
   \<and> \<not> String_throws JUndefined
   \<and> (\<exists>v s'. saveVersion (\<lambda>s. s) Map.empty (js ''doc'') (JStr [0x22]) JUndefined JUndefined []
                 1700000000000 1700000000000 = Inr (v, s')
           \<and> content v = []
           \<and> wordCount (metadata v) = 0
           \<and> characterCount (metadata v) = 0
           \<and> lineCount (metadata v) = 1
           \<and> v \<in> set (the_versions s' (js ''doc'')))"
proof -
  have a: "js ''doc'' \<noteq> []"
    by simp
  have b: "[0x22] \<noteq> ([]::jsstring)"
    by simp
  have c: "sanitizeInput (\<lambda>s. s) (JStr [0x22]) = Inr []"
    by (simp add: sanitizeInput_def is_quote_def trim_def)
  have u: "\<not> String_throws JUndefined"
    by simp
  show ?thesis
    using a b c u saveVersion_empty_after_sanitize[OF a b c u u] by blast
qed

section \<open>Comparing two revisions in either order\<close>

text \<open>
  Claim C6. For a document and two revision ids \<open>a\<close> and \<open>b\<close> of its log (identifiers
  are non-empty, as every one \<open>saveVersion\<close> issues or accepts is),
  \<open>compareVersions(d, a, b)\<close> and \<open>compareVersions(d, b, a)\<close> both return; the
  \<open>added\<close> of either is the \<open>removed\<close> of the other, \<open>totalChanges\<close> is the same, and
  in each result \<open>totalChanges = addedCount + removedCount\<close>, the two counts being the
  lengths of \<open>added\<close> and \<open>removed\<close>.
\<close>

theorem compareVersions_swap:
  assumes "d \<noteq> []" and "a \<noteq> []" and "b \<noteq> []"
    and "a \<in> id_rev ` set (the_versions s d)" and "b \<in> id_rev ` set (the_versions s d)"
  shows "\<exists>c1 c2. compareVersions s d a b = Inr c1 \<and> compareVersions s d b a = Inr c2
           \<and> added (differences c1) = removed (differences c2)
           \<and> removed (differences c1) = added (differences c2)
           \<and> totalChanges (differences c1) = totalChanges (differences c2)
           \<and> totalChanges (differences c1)
               = addedCount (differences c1) + removedCount (differences c1)
           \<and> totalChanges (differences c2)
               = addedCount (differences c2) + removedCount (differences c2)
           \<and> addedCount (differences c1) = length (added (differences c1))
           \<and> removedCount (differences c1) = length (removed (differences c1))
           \<and> addedCount (differences c2) = length (added (differences c2))
           \<and> removedCount (differences c2) = length (removed (differences c2))"
proof -
  obtain va where va: "find (\<lambda>v. id_rev v = a) (the_versions s d) = Some va"
    using assms(4)
    by (cases "find (\<lambda>v. id_rev v = a) (the_versions s d)") (auto simp: find_None_iff)
  obtain vb where vb: "find (\<lambda>v. id_rev v = b) (the_versions s d) = Some vb"
    using assms(5)
    by (cases "find (\<lambda>v. id_rev v = b) (the_versions s d)") (auto simp: find_None_iff)
  have 1: "compareVersions s d a b =
      Inr \<lparr> version1 = va, version2 = vb, differences = diffLines (content va) (content vb) \<rparr>"
    using assms(1-3) va vb by (simp add: compareVersions_def)
  have 2: "compareVersions s d b a =
      Inr \<lparr> version1 = vb, version2 = va, differences = diffLines (content vb) (content va) \<rparr>"
    using assms(1-3) va vb by (simp add: compareVersions_def)
  show ?thesis
    unfolding 1 2 by (simp add: diffLines_def Let_def)
qed

theorem compareVersions_swap_witness:
  "js ''doc'' \<noteq> [] \<and> decimal 1000 \<noteq> [] \<and> decimal 2000 \<noteq> []
   \<and> decimal 1000 \<in> id_rev ` set (the_versions
         (save_ok (save_ok Map.empty (js ''doc'') (js ''Hello world'') 1000)
            (js ''doc'') (js ''Hello brave world'') 2000) (js ''doc''))
   \<and> decimal 2000 \<in> id_rev ` set (the_versions
         (save_ok (save_ok Map.empty (js ''doc'') (js ''Hello world'') 1000)
            (js ''doc'') (js ''Hello brave world'') 2000) (js ''doc''))
   \<and> (\<exists>c1 c2.
         compareVersions
           (save_ok (save_ok Map.empty (js ''doc'') (js ''Hello world'') 1000)
              (js ''doc'') (js ''Hello brave world'') 2000)
           (js ''doc'') (decimal 1000) (decimal 2000) = Inr c1
       \<and> compareVersions
           (save_ok (save_ok Map.empty (js ''doc'') (js ''Hello world'') 1000)
              (js ''doc'') (js ''Hello brave world'') 2000)
           (js ''doc'') (decimal 2000) (decimal 1000) = Inr c2
       \<and> added (differences c1) = removed (differences c2)
       \<and> removed (differences c1) = added (differences c2)
       \<and> totalChanges (differences c1) = totalChanges (differences c2))"
proof -
  let ?s = "save_ok (save_ok Map.empty (js ''doc'') (js ''Hello world'') 1000)
              (js ''doc'') (js ''Hello brave world'') 2000"
  have a: "decimal 1000 \<noteq> []" and b: "decimal 2000 \<noteq> []"
    by (rule decimal_nonempty)+
  have ia: "decimal 1000 \<in> id_rev ` set (the_versions ?s (js ''doc''))"
    by (simp add: example_log mk_rev_sel)
  have ib: "decimal 2000 \<in> id_rev ` set (the_versions ?s (js ''doc''))"
    by (simp add: example_log mk_rev_sel)
  show ?thesis
    using doc_ne a b ia ib compareVersions_swap[OF doc_ne a b ia ib] by blast
qed

section \<open>Saving, then fetching by the returned id\<close>

text \<open>
  Claim C3, as the code has it. The id of a revision is the clock reading in
  milliseconds, so two revisions saved in the same millisecond share it. For a non-empty
  document id, a non-empty string content, and a user and an action that convert to
  strings (as absent ones and strings do): \<open>saveVersion\<close> returns a revision, and if no
  revision of the document's log already carries the id this save issues, then
  \<open>getVersion\<close> with the returned id yields the returned revision itself, hence the same
  content, action and statistics.
\<close>

theorem save_then_get:
  assumes "d \<noteq> []" and "c \<noteq> []"
    and "\<not> String_throws uid" and "\<not> String_throws act"
    and "decimal now_id \<notin> id_rev ` set (the_versions s d)"
  shows "\<exists>v s'. saveVersion purify s d (JStr c) uid act md now_id now_ts = Inr (v, s')
           \<and> getVersion s' d (id_rev v) = Inr (Some v)"
proof -
  obtain v s' where r: "saveVersion purify s d (JStr c) uid act md now_id now_ts = Inr (v, s')"
    using saveVersion_returns[OF assms(1) _ _ assms(3,4), of "JStr c" purify s md now_id now_ts]
      assms(2)
    by auto
  have idv: "id_rev v = decimal now_id"
    by (rule saveVersion_fields(1)[OF r])
  let ?old = "if length (the_versions s d) \<ge> 50 then tl (the_versions s d)
              else the_versions s d"
  have log: "the_versions s' d = ?old @ [v]"
    using saveVersion_log[OF r] by simp
  have sub: "set ?old \<subseteq> set (the_versions s d)"
    by (cases "the_versions s d") auto
  have "id_rev x \<noteq> decimal now_id" if "x \<in> set ?old" for x
  proof -
    from that sub have "x \<in> set (the_versions s d)"
      by (rule subsetD[rotated])
    then have "id_rev x \<in> id_rev ` set (the_versions s d)"
      by (rule imageI)
    with assms(5) show ?thesis
      by auto
  qed
  then have "find (\<lambda>x. id_rev x = id_rev v) ?old = None"
    unfolding idv find_None_iff by blast
  then have "find (\<lambda>x. id_rev x = id_rev v) (the_versions s' d) = Some v"
    unfolding log by (simp add: find_append_js)
  then have "getVersion s' d (id_rev v) = Inr (Some v)"
    using assms(1) by (simp add: getVersion_def idv decimal_nonempty)
  with r show ?thesis
    by blast
qed

theorem save_then_get_witness:
  "js ''doc'' \<noteq> [] \<and> js ''Hello brave world'' \<noteq> []
   \<and> \<not> String_throws JUndefined
   \<and> decimal 2000 \<notin> id_rev ` set (the_versions
         (save_ok Map.empty (js ''doc'') (js ''Hello world'') 1000) (js ''doc''))
   \<and> (\<exists>v s'. saveVersion (\<lambda>x. x) (save_ok Map.empty (js ''doc'') (js ''Hello world'') 1000)
                  (js ''doc'') (JStr (js ''Hello brave world'')) JUndefined JUndefined []
                  2000 2000 = Inr (v, s')
             \<and> getVersion s' (js ''doc'') (id_rev v) = Inr (Some v))"
proof -
  let ?s = "save_ok Map.empty (js ''doc'') (js ''Hello world'') 1000"
  have a: "js ''Hello world'' \<noteq> []" and c: "js ''Hello brave world'' \<noteq> []"
    by simp_all
  have u: "\<not> String_throws JUndefined"
    by simp
  have f: "decimal 2000 \<notin> id_rev ` set (the_versions ?s (js ''doc''))"
    by (simp add: save_ok_log[OF doc_ne a sanitize_hello] the_versions_empty mk_rev_sel
          decimal_2000_ne_1000)
  show ?thesis
    using doc_ne c u f save_then_get[OF doc_ne c u u f] by blast
qed

text \<open>
  Without the condition on the id the round trip fails: of two saves to one document in
  the same millisecond, the second returns a revision whose id fetches the first one,
  with the first one's content. And with a user that is an object with an entry
  \<open>toString\<close> the save throws a \<open>TypeError\<close> and returns no revision.
\<close>

theorem save_then_get_counterexample:
  "(case saveVersion (\<lambda>x. x) Map.empty (js ''doc'') (JStr (js ''Hello world''))
           JUndefined JUndefined [] 1000 1000 of
      Inl e \<Rightarrow> False
    | Inr (v1, s1) \<Rightarrow>
       (case saveVersion (\<lambda>x. x) s1 (js ''doc'') (JStr (js ''Hello brave world''))
               JUndefined JUndefined [] 1000 1000 of
          Inl e \<Rightarrow> False
        | Inr (v2, s2) \<Rightarrow>
            getVersion s2 (js ''doc'') (id_rev v2) = Inr (Some v1)
            \<and> content v1 = js ''Hello world''
            \<and> content v2 = js ''Hello brave world''))
   \<and> saveVersion (\<lambda>x. x) Map.empty (js ''doc'') (JStr (js ''Hello world''))
         (JObj [(js ''toString'', JStr (js ''x''))]) JUndefined [] 1000 1000
       = Inl (TypeError ''Cannot convert object to primitive value'')"
  by (simp add: saveVersion_def Let_def getVersion_def the_versions_def
        sanitize_hello sanitize_hello_brave sanitize_anonymous sanitize_edit
        sanitize_toString_object decimal_nonempty)

section \<open>Exporting to text and to Markdown\<close>

text \<open>The header and the frontmatter are built when their values convert to strings.\<close>

lemma String_js_returns: "\<not> String_throws x \<Longrightarrow> String_js x = Inr (String_text x)"
  by (simp add: String_js_def)

lemma or_default_converts:
  "\<not> String_throws a \<Longrightarrow> \<not> String_throws b \<Longrightarrow> \<not> String_throws (or_default a b)"
  by (simp add: or_default_def)

lemma createTextHeader_returns:
  assumes "\<not> String_throws (title options)" and "\<not> String_throws (author options)"
  shows "\<exists>header. createTextHeader env options = Inr header"
proof -
  have 1: "\<not> String_throws (or_default (title options) (JStr (js ''Exported Document'')))"
    using assms(1) by (simp add: or_default_converts)
  have 2: "\<not> String_throws (or_default (author options) (JStr (js ''Meet with AI'')))"
    using assms(2) by (simp add: or_default_converts)
  show ?thesis
    by (simp add: createTextHeader_def String_js_returns[OF 1] String_js_returns[OF 2])
qed

lemma frontmatter_entry_returns:
  "\<not> String_throws v \<Longrightarrow>
     \<exists>str. (case v of JArr xs \<Rightarrow> Inr (json_stringify env v) | _ \<Rightarrow> String_js v) = Inr str"
  by (cases v) (simp_all add: String_js_def)

lemma createFrontmatter_returns:
  assumes "\<not> String_throws (title options)" and "\<not> String_throws (author options)"
    and "\<not> String_throws (tags options)" and "\<not> String_throws (category options)"
  shows "\<exists>frontmatter. createFrontmatter env options = Inr frontmatter"
proof -
  obtain s1 where 1: "(case or_default (title options) (JStr (js ''Exported Document'')) of
        JArr xs \<Rightarrow> Inr (json_stringify env
                        (or_default (title options) (JStr (js ''Exported Document''))))
      | _ \<Rightarrow> String_js (or_default (title options) (JStr (js ''Exported Document'')))) = Inr s1"
    using frontmatter_entry_returns[OF or_default_converts[OF assms(1)]] by force
  obtain s2 where 2: "(case or_default (author options) (JStr (js ''Meet with AI'')) of
        JArr xs \<Rightarrow> Inr (json_stringify env
                        (or_default (author options) (JStr (js ''Meet with AI''))))
      | _ \<Rightarrow> String_js (or_default (author options) (JStr (js ''Meet with AI'')))) = Inr s2"
    using frontmatter_entry_returns[OF or_default_converts[OF assms(2)]] by force
  obtain s3 where 3: "(case or_default (tags options) (JArr []) of
        JArr xs \<Rightarrow> Inr (json_stringify env (or_default (tags options) (JArr [])))
      | _ \<Rightarrow> String_js (or_default (tags options) (JArr []))) = Inr s3"
    using frontmatter_entry_returns[OF or_default_converts[OF assms(3)]] by force
  obtain s4 where 4: "(case or_default (category options) (JStr (js ''export'')) of
        JArr xs \<Rightarrow> Inr (json_stringify env
                        (or_default (category options) (JStr (js ''export''))))
      | _ \<Rightarrow> String_js (or_default (category options) (JStr (js ''export'')))) = Inr s4"
    using frontmatter_entry_returns[OF or_default_converts[OF assms(4)]] by force
  show ?thesis
    by (simp add: createFrontmatter_def Let_def 1 2 3 4 String_js_def)
qed

text \<open>
  Claim C9. With \<open>includeMetadata\<close> set, the temporary file written, and a title and an
  author that convert to strings (and tags and a category that do, when
  \<open>includeFrontmatter\<close> is set), exporting a content string to text returns the header
  block, a blank line and the sanitized content; exporting it to Markdown returns the
  sanitized content, a blank line and the metadata footer, after the frontmatter and a
  blank line when \<open>includeFrontmatter\<close> is set. In both payloads the sanitized content
  stands as one contiguous piece.
\<close>

theorem export_contains_sanitized:
  assumes "truthy (includeMetadata options)"
    and "\<And>p x. write_file env p x"
    and "\<not> String_throws (title options)" and "\<not> String_throws (author options)"
    and "truthy (includeFrontmatter options) \<Longrightarrow>
           \<not> String_throws (tags options) \<and> \<not> String_throws (category options)"
  shows "\<exists>sc header rt rm.
        sanitizeInput purify (JStr c) = Inr sc
      \<and> createTextHeader env options = Inr header
      \<and> exportToText purify env (JStr c) options = Inr rt
      \<and> exportToMarkdown purify env (JStr c) options = Inr rm
      \<and> x_content rt = header @ [0x0A, 0x0A] @ sc
      \<and> (\<not> truthy (includeFrontmatter options) \<longrightarrow>
            x_content rm = sc @ [0x0A, 0x0A] @ createMetadataFooter env options)
      \<and> (truthy (includeFrontmatter options) \<longrightarrow>
            (\<exists>frontmatter. createFrontmatter env options = Inr frontmatter
               \<and> x_content rm = frontmatter @ [0x0A, 0x0A] @ sc @ [0x0A, 0x0A]
                                  @ createMetadataFooter env options))
      \<and> sublist sc (x_content rt)
      \<and> sublist sc (x_content rm)"
proof -
  obtain sc where sc: "sanitizeInput purify (JStr c) = Inr sc"
    by (simp add: sanitizeInput_JStr)
  obtain header where h: "createTextHeader env options = Inr header"
    using createTextHeader_returns[OF assms(3,4)] by blast
  let ?footer = "createMetadataFooter env options"
  obtain rt where rt: "exportToText purify env (JStr c) options = Inr rt"
      "x_content rt = header @ [0x0A, 0x0A] @ sc"
    using assms(1,2) by (simp add: exportToText_def Let_def sc h)
  have st: "sublist sc (x_content rt)"
    unfolding sublist_def rt(2)
    by (rule exI[of _ "header @ [0x0A, 0x0A]"], rule exI[of _ "[]"]) simp
  show ?thesis
  proof (cases "truthy (includeFrontmatter options)")
    case True
    then obtain fm where fm: "createFrontmatter env options = Inr fm"
      using createFrontmatter_returns[OF assms(3,4)] assms(5) by blast
    obtain rm where rm: "exportToMarkdown purify env (JStr c) options = Inr rm"
        "x_content rm = fm @ [0x0A, 0x0A] @ sc @ [0x0A, 0x0A] @ ?footer"
      using assms(1,2) True by (simp add: exportToMarkdown_def Let_def sc fm)
    have sm: "sublist sc (x_content rm)"
      unfolding sublist_def rm(2)
      by (rule exI[of _ "fm @ [0x0A, 0x0A]"], rule exI[of _ "[0x0A, 0x0A] @ ?footer"]) simp
    show ?thesis
      using sc h rt rm st sm fm True by blast
  next
    case False
    obtain rm where rm: "exportToMarkdown purify env (JStr c) options = Inr rm"
        "x_content rm = sc @ [0x0A, 0x0A] @ ?footer"
      using assms(1,2) False by (simp add: exportToMarkdown_def Let_def sc)
    have sm: "sublist sc (x_content rm)"
      unfolding sublist_def rm(2)
      by (rule exI[of _ "[]"], rule exI[of _ "[0x0A, 0x0A] @ ?footer"]) simp
    show ?thesis
      using sc h rt rm st sm False by blast
  qed
qed

theorem export_contains_sanitized_witness:
  "truthy (includeMetadata example_options)
   \<and> (\<forall>p x. write_file example_env p x)
   \<and> \<not> String_throws (title example_options) \<and> \<not> String_throws (author example_options)
   \<and> truthy (includeFrontmatter example_options)
   \<and> \<not> String_throws (tags example_options) \<and> \<not> String_throws (category example_options)
   \<and> (\<exists>rt rm. exportToText (\<lambda>x. x) example_env (JStr (js ''Hello world'')) example_options = Inr rt
        \<and> exportToMarkdown (\<lambda>x. x) example_env (JStr (js ''Hello world'')) example_options = Inr rm
        \<and> x_content rt = js ''Title: Exported Document\<newline>Date: 1/2/2024\<newline>Time: 3:04:05 AM\<newline>Author: Meet with AI\<newline>\<newline>---\<newline>\<newline>Hello world''
        \<and> x_content rm = js ''---\<newline>title: Exported Document\<newline>date: 2024-01-02T03:04:05.679Z\<newline>author: Meet with AI\<newline>tags: []\<newline>category: export\<newline>---\<newline>\<newline>Hello world\<newline>\<newline>---\<newline>*Exported from Meet with AI*\<newline>*Date: 1/2/2024*\<newline>*Time: 3:04:05 AM*''
        \<and> sublist (js ''Hello world'') (x_content rt)
        \<and> sublist (js ''Hello world'') (x_content rm))"
proof -
  have m: "truthy (includeMetadata example_options)"
    and f: "truthy (includeFrontmatter example_options)"
    and c: "\<not> String_throws (title example_options)" "\<not> String_throws (author example_options)"
    and d: "\<not> String_throws (tags example_options) \<and> \<not> String_throws (category example_options)"
    by (simp_all add: example_options_def)
  have w: "\<And>p x. write_file example_env p x"
    by (simp add: example_env_def)
  have h: "createTextHeader example_env example_options
      = Inr (js ''Title: Exported Document\<newline>Date: 1/2/2024\<newline>Time: 3:04:05 AM\<newline>Author: Meet with AI\<newline>\<newline>---'')"
    by (simp add: createTextHeader_def String_js_def example_env_def example_options_def
          or_default_def js_def)
  have fm: "createFrontmatter example_env example_options
      = Inr (js ''---\<newline>title: Exported Document\<newline>date: 2024-01-02T03:04:05.679Z\<newline>author: Meet with AI\<newline>tags: []\<newline>category: export\<newline>---'')"
    by (simp add: createFrontmatter_def String_js_def example_env_def example_options_def
          or_default_def js_def)
  have ft: "createMetadataFooter example_env example_options
      = js ''---\<newline>*Exported from Meet with AI*\<newline>*Date: 1/2/2024*\<newline>*Time: 3:04:05 AM*''"
    by (simp add: createMetadataFooter_def example_env_def js_def)
  from export_contains_sanitized[OF m w c, of "\<lambda>x. x" "js ''Hello world''"] d
  obtain sc header rt rm where r:
      "sanitizeInput (\<lambda>x. x) (JStr (js ''Hello world'')) = Inr sc"
      "createTextHeader example_env example_options = Inr header"
      "exportToText (\<lambda>x. x) example_env (JStr (js ''Hello world'')) example_options = Inr rt"
      "exportToMarkdown (\<lambda>x. x) example_env (JStr (js ''Hello world'')) example_options = Inr rm"
      "x_content rt = header @ [0x0A, 0x0A] @ sc"
      "truthy (includeFrontmatter example_options) \<longrightarrow>
            (\<exists>frontmatter. createFrontmatter example_env example_options = Inr frontmatter
               \<and> x_content rm = frontmatter @ [0x0A, 0x0A] @ sc @ [0x0A, 0x0A]
                                  @ createMetadataFooter example_env example_options)"
      "sublist sc (x_content rt)" "sublist sc (x_content rm)"
    by blast
  have sc: "sc = js ''Hello world''"
    using r(1) by (simp add: sanitize_hello)
  have hd: "header = js ''Title: Exported Document\<newline>Date: 1/2/2024\<newline>Time: 3:04:05 AM\<newline>Author: Meet with AI\<newline>\<newline>---''"
    using r(2) by (simp add: h)
  have t: "x_content rt = js ''Title: Exported Document\<newline>Date: 1/2/2024\<newline>Time: 3:04:05 AM\<newline>Author: Meet with AI\<newline>\<newline>---\<newline>\<newline>Hello world''"
    unfolding r(5) sc hd by (simp add: js_def)
  have "x_content rm = js ''---\<newline>title: Exported Document\<newline>date: 2024-01-02T03:04:05.679Z\<newline>author: Meet with AI\<newline>tags: []\<newline>category: export\<newline>---'' @ [0x0A, 0x0A] @ sc @ [0x0A, 0x0A]
                                  @ createMetadataFooter example_env example_options"
    using r(6) f by (simp add: fm)
  then have mm: "x_content rm = js ''---\<newline>title: Exported Document\<newline>date: 2024-01-02T03:04:05.679Z\<newline>author: Meet with AI\<newline>tags: []\<newline>category: export\<newline>---\<newline>\<newline>Hello world\<newline>\<newline>---\<newline>*Exported from Meet with AI*\<newline>*Date: 1/2/2024*\<newline>*Time: 3:04:05 AM*''"
    unfolding sc ft by (simp add: js_def)
  have "\<exists>rt rm. exportToText (\<lambda>x. x) example_env (JStr (js ''Hello world'')) example_options = Inr rt
        \<and> exportToMarkdown (\<lambda>x. x) example_env (JStr (js ''Hello world'')) example_options = Inr rm
        \<and> x_content rt = js ''Title: Exported Document\<newline>Date: 1/2/2024\<newline>Time: 3:04:05 AM\<newline>Author: Meet with AI\<newline>\<newline>---\<newline>\<newline>Hello world''
        \<and> x_content rm = js ''---\<newline>title: Exported Document\<newline>date: 2024-01-02T03:04:05.679Z\<newline>author: Meet with AI\<newline>tags: []\<newline>category: export\<newline>---\<newline>\<newline>Hello world\<newline>\<newline>---\<newline>*Exported from Meet with AI*\<newline>*Date: 1/2/2024*\<newline>*Time: 3:04:05 AM*''
        \<and> sublist (js ''Hello world'') (x_content rt)
        \<and> sublist (js ''Hello world'') (x_content rm)"
    using r(3,4,7,8) t mm unfolding sc by blast
  then show ?thesis
    using m w c f d by - (intro conjI allI; (assumption | elim conjE)?; assumption?)
qed

section \<open>Listing the revisions of a document\<close>

text \<open>
  Claim C5, as the code has it. For a non-empty document id, \<open>getVersions\<close> returns the
  revisions of the log sorted by timestamp, newest first; the sort is stable, so
  revisions of equal timestamp keep the order they have in the stored array (for
  revisions saved one after the other: the earlier save first). \<open>getLatestVersion\<close>
  returns the head of that list, or \<open>null\<close> when the list is empty.
\<close>

theorem getVersions_newest_first:
  assumes "d \<noteq> []"
  shows "\<exists>vs s'. getVersions s d = Inr (vs, s')
     \<and> sorted_wrt (\<lambda>a b. timestamp a \<ge> timestamp b) vs
     \<and> mset vs = mset (the_versions s d)
     \<and> (\<forall>t. filter (\<lambda>v. timestamp v = t) vs = filter (\<lambda>v. timestamp v = t) (the_versions s d))
     \<and> getLatestVersion s d = Inr ((case vs of [] \<Rightarrow> None | v # _ \<Rightarrow> Some v), s')"
proof -
  let ?vs = "sort_newest_first (the_versions s d)"
  obtain s' where g: "getVersions s d = Inr (?vs, s')"
    using assms by (cases "s d") (auto simp: getVersions_def the_versions_def sort_newest_first_def)
  have 1: "sorted_wrt (\<lambda>a b. timestamp a \<ge> timestamp b) ?vs"
    using sorted_sort_key[of "\<lambda>v. - int (timestamp v)" "the_versions s d"]
    by (simp add: sort_newest_first_def sorted_map)
  have 2: "mset ?vs = mset (the_versions s d)"
    by (simp add: sort_newest_first_def)
  have 3: "filter (\<lambda>v. timestamp v = t) ?vs = filter (\<lambda>v. timestamp v = t) (the_versions s d)" for t
    using sort_key_stable[of "\<lambda>v. - int (timestamp v)" "- int t" "the_versions s d"]
    by (simp add: sort_newest_first_def)
  have 4: "getLatestVersion s d = Inr ((case ?vs of [] \<Rightarrow> None | v # _ \<Rightarrow> Some v), s')"
    using assms g by (simp add: getLatestVersion_def)
  show ?thesis using g 1 2 3 4 by blast
qed

theorem getVersions_newest_first_witness:
  "js ''doc'' \<noteq> []
   \<and> (\<exists>vs s'. getVersions (save_ok (save_ok Map.empty (js ''doc'') (js ''Hello world'') 1000)
                     (js ''doc'') (js ''Hello brave world'') 2000) (js ''doc'') = Inr (vs, s')
        \<and> sorted_wrt (\<lambda>a b. timestamp a \<ge> timestamp b) vs
        \<and> mset vs = mset (the_versions (save_ok (save_ok Map.empty (js ''doc'') (js ''Hello world'') 1000)
                     (js ''doc'') (js ''Hello brave world'') 2000) (js ''doc''))
        \<and> getLatestVersion (save_ok (save_ok Map.empty (js ''doc'') (js ''Hello world'') 1000)
                     (js ''doc'') (js ''Hello brave world'') 2000) (js ''doc'')
            = Inr ((case vs of [] \<Rightarrow> None | v # _ \<Rightarrow> Some v), s'))"
  using doc_ne getVersions_newest_first[OF doc_ne,
      of "save_ok (save_ok Map.empty (js ''doc'') (js ''Hello world'') 1000)
            (js ''doc'') (js ''Hello brave world'') 2000"]
  by blast

text \<open>
  Ties do not put the most recently inserted revision first: of two revisions saved in
  the same millisecond, the list has the first one saved at its head, and that one is
  what \<open>getLatestVersion\<close> returns.
\<close>

theorem getVersions_ties_counterexample:
  "(case saveVersion (\<lambda>x. x) Map.empty (js ''doc'') (JStr (js ''Hello world''))
           JUndefined JUndefined [] 1000 1000 of
      Inl e \<Rightarrow> False
    | Inr (v1, s1) \<Rightarrow>
       (case saveVersion (\<lambda>x. x) s1 (js ''doc'') (JStr (js ''Hello brave world''))
               JUndefined JUndefined [] 1000 1000 of
          Inl e \<Rightarrow> False
        | Inr (v2, s2) \<Rightarrow>
            timestamp v1 = timestamp v2
            \<and> content v1 = js ''Hello world''
            \<and> content v2 = js ''Hello brave world''
            \<and> (case getVersions s2 (js ''doc'') of Inl e \<Rightarrow> False | Inr (vs, s3) \<Rightarrow> vs = [v1, v2])
            \<and> (case getLatestVersion s2 (js ''doc'') of Inl e \<Rightarrow> False | Inr (l, s3) \<Rightarrow> l = Some v1)))"
  by (simp add: saveVersion_def Let_def getVersions_def getLatestVersion_def the_versions_def
        sort_newest_first_def sanitize_hello sanitize_hello_brave sanitize_anonymous
        sanitize_edit)

section \<open>Cleaning up old revisions\<close>

text \<open>
  Claim C4, at two inputs where the code does otherwise. With \<open>keepCount = 0\<close> and two
  revisions in the log, \<open>slice(-0)\<close> is \<open>slice(0)\<close> and both revisions stay. And after
  \<open>getVersions\<close> has sorted the stored array newest first, \<open>keepCount = 1\<close> keeps the last
  element of that array, which is the oldest revision.
\<close>

theorem cleanupOldVersions_failing_inputs:
  "(case cleanupOldVersions
           (save_ok (save_ok Map.empty (js ''doc'') (js ''Hello world'') 1000)
              (js ''doc'') (js ''Hello brave world'') 2000) (js ''doc'') 0 of
      Inl e \<Rightarrow> False
    | Inr s' \<Rightarrow> the_versions s' (js ''doc'')
         = [mk_rev (js ''doc'') (js ''Hello world'') 1000,
            mk_rev (js ''doc'') (js ''Hello brave world'') 2000])
   \<and> (case getVersions
           (save_ok (save_ok Map.empty (js ''doc'') (js ''Hello world'') 1000)
              (js ''doc'') (js ''Hello brave world'') 2000) (js ''doc'') of
      Inl e \<Rightarrow> False
    | Inr (vs, s1) \<Rightarrow>
        (case cleanupOldVersions s1 (js ''doc'') 1 of
           Inl e \<Rightarrow> False
         | Inr s2 \<Rightarrow> the_versions s2 (js ''doc'') = [mk_rev (js ''doc'') (js ''Hello world'') 1000]))"
proof -
  define s where "s = save_ok (save_ok Map.empty (js ''doc'') (js ''Hello world'') 1000)
              (js ''doc'') (js ''Hello brave world'') 2000"
  define v1 where "v1 = mk_rev (js ''doc'') (js ''Hello world'') 1000"
  define v2 where "v2 = mk_rev (js ''doc'') (js ''Hello brave world'') 2000"
  have log: "the_versions s (js ''doc'') = [v1, v2]"
    unfolding s_def v1_def v2_def by (rule example_log)
  then have sd: "s (js ''doc'') = Some [v1, v2]"
    by (cases "s (js ''doc'')") (auto simp: the_versions_def)
  have A: "(case cleanupOldVersions s (js ''doc'') 0 of Inl e \<Rightarrow> False
            | Inr s' \<Rightarrow> the_versions s' (js ''doc'') = [v1, v2])"
    using doc_ne by (simp add: cleanupOldVersions_def sd slice_from_def the_versions_def)
  have srt: "sort_newest_first [v1, v2] = [v2, v1]"
    unfolding v1_def v2_def by (rule example_sorted)
  have B: "(case getVersions s (js ''doc'') of Inl e \<Rightarrow> False
    | Inr (vs, s1) \<Rightarrow>
        (case cleanupOldVersions s1 (js ''doc'') 1 of
           Inl e \<Rightarrow> False
         | Inr s2 \<Rightarrow> the_versions s2 (js ''doc'') = [v1]))"
    using doc_ne by (simp add: getVersions_def sd srt cleanupOldVersions_def slice_from_def the_versions_def)
  show ?thesis
    using A B unfolding s_def v1_def v2_def by - (intro conjI; assumption)
qed

section \<open>Retention after a listing\<close>

text \<open>
  Claim C1, at an input where the code does otherwise. Fifty revisions are saved at the
  instants 1 to 50, \<open>getVersions\<close> is called, and a revision is saved at the instant 51.
  The listing has left the stored array newest first, so the shift after the push drops
  the revision of the instant 50: the log then holds the revisions of the instants 49
  down to 1, then 51. The oldest revision is kept and the newest earlier one is evicted.
\<close>

theorem eviction_after_getVersions:
  "(case getVersions (fold (\<lambda>t s. save_ok s (js ''doc'') (js ''x'') t) [1..<51] Map.empty) (js ''doc'') of
      Inl e \<Rightarrow> False
    | Inr (vs, s1) \<Rightarrow>
        map timestamp vs = rev [1..<51]
        \<and> map timestamp (the_versions (save_ok s1 (js ''doc'') (js ''x'') 51) (js ''doc''))
            = rev [1..<50] @ [51])"
proof -
  define s0 where "s0 = fold (\<lambda>t s. save_ok s (js ''doc'') (js ''x'') t) [1..<51] Map.empty"
  define vs0 where "vs0 = map (mk_rev (js ''doc'') (js ''x'')) [1..<51]"
  define older where "older = map (mk_rev (js ''doc'') (js ''x'')) [1..<50]"
  have x: "js ''x'' \<noteq> []" by simp
  have log: "the_versions s0 (js ''doc'') = vs0"
    unfolding s0_def vs0_def
    using fold_saves_log[OF doc_ne x sanitize_x, of "[1..<51]"] by simp
  have len: "length vs0 = 50"
    by (simp add: vs0_def)
  then have s: "s0 (js ''doc'') = Some vs0"
    using log by (cases "s0 (js ''doc'')") (auto simp: the_versions_def)
  have srt: "sort_newest_first vs0 = rev vs0"
    unfolding vs0_def by (rule sort_newest_first_increasing) (rule sorted_mk)
  have g: "getVersions s0 (js ''doc'') = Inr (rev vs0, s0(js ''doc'' \<mapsto> rev vs0))"
    using doc_ne s by (simp add: getVersions_def srt)
  have tv: "the_versions (s0(js ''doc'' \<mapsto> rev vs0)) (js ''doc'') = rev vs0"
    by (simp add: the_versions_def)
  have "[1..<51] = [1..<Suc 50]"
    by simp
  also have "\<dots> = [1..<50] @ [50]"
    by (rule upt_Suc_append) simp
  finally have "vs0 = older @ [mk_rev (js ''doc'') (js ''x'') 50]"
    unfolding vs0_def older_def by (simp only: map_append list.map)
  then have tl: "tl (rev vs0) = rev older"
    by simp
  have "the_versions (save_ok (s0(js ''doc'' \<mapsto> rev vs0)) (js ''doc'') (js ''x'') 51) (js ''doc'')
     = rev older @ [mk_rev (js ''doc'') (js ''x'') 51]"
    by (simp add: save_ok_log[OF doc_ne x sanitize_x] tv len tl)
  then have "map timestamp (the_versions (save_ok (s0(js ''doc'' \<mapsto> rev vs0)) (js ''doc'') (js ''x'') 51) (js ''doc''))
     = rev [1..<50] @ [51]"
    by (simp add: older_def rev_map comp_def mk_rev_sel)
  moreover have "map timestamp (rev vs0) = rev [1..<51]"
    by (simp add: vs0_def rev_map comp_def mk_rev_sel)
  ultimately show ?thesis
    unfolding s0_def[symmetric] g by simp
qed

section \<open>Restoring a revision\<close>





end
